theory Spec2Isabelle
  imports Main
begin

section \<open>Python values and errors\<close>

text \<open>
  The program is \<^verbatim>\<open>src/main.py\<close>: a Needleman-Wunsch aligner. Its integers are
  Python's unbounded ints (\<^typ>\<open>int\<close>), its sequences are Python strings (\<^typ>\<open>string\<close>; one
  \<^typ>\<open>char\<close> stands for one character of the Python string), and its matrix is a numpy
  array of objects whose cells hold \<^verbatim>\<open>None\<close> or an int. The exceptions the code can
  raise are the two below; every function that can raise returns \<open>error + 'a\<close>.
\<close>

datatype error = IndexError | TypeError

text \<open>Sequencing of two fallible computations: the first exception raised is the result.\<close>

definition and_then :: "error + 'a \<Rightarrow> ('a \<Rightarrow> error + 'b) \<Rightarrow> error + 'b" where
  "and_then r f = (case r of Inl e \<Rightarrow> Inl e | Inr x \<Rightarrow> f x)"

text \<open>
  An index into a dimension of size \<open>n\<close>, as Python strings and numpy arrays read it:
  \<open>0 .. n - 1\<close> as it is, \<open>- n .. - 1\<close> counted from the end, anything else raises.
\<close>

definition py_index :: "nat \<Rightarrow> int \<Rightarrow> error + nat" where
  "py_index n i =
     (if 0 \<le> i \<and> i < int n then Inr (nat i)
      else if - int n \<le> i \<and> i < 0 then Inr (nat (int n + i))
      else Inl IndexError)"

text \<open>\<^verbatim>\<open>s[i]\<close> on a string.\<close>

definition str_getitem :: "string \<Rightarrow> int \<Rightarrow> error + char" where
  "str_getitem s i = and_then (py_index (length s) i) (\<lambda>k. Inr (s ! k))"

text \<open>\<^verbatim>\<open>range(n)\<close>: empty when \<open>n \<le> 0\<close>.\<close>

definition py_range :: "int \<Rightarrow> int list" where
  "py_range n = map int [0..<nat n]"

text \<open>
  \<^verbatim>\<open>x + y\<close> where \<open>x\<close> was read from a matrix cell and \<open>y\<close> is an int: a cell that still
  holds \<^verbatim>\<open>None\<close> raises TypeError.
\<close>

definition py_add :: "int option \<Rightarrow> int \<Rightarrow> error + int" where
  "py_add x y = (case x of None \<Rightarrow> Inl TypeError | Some v \<Rightarrow> Inr (v + y))"

text \<open>A \<^verbatim>\<open>for\<close> loop over a list whose body may raise: the exception ends the loop.\<close>

primrec for_each :: "'a list \<Rightarrow> ('a \<Rightarrow> 's \<Rightarrow> error + 's) \<Rightarrow> 's \<Rightarrow> error + 's" where
  "for_each [] body s = Inr s"
| "for_each (x # xs) body s =
     (case body x s of Inl e \<Rightarrow> Inl e | Inr s' \<Rightarrow> for_each xs body s')"

subsection \<open>Rendering an int in an f-string\<close>

definition digit_char :: "nat \<Rightarrow> char" where
  "digit_char d = ''0123456789'' ! d"

function str_nat :: "nat \<Rightarrow> string" where
  "str_nat n = (if n < 10 then [digit_char n] else str_nat (n div 10) @ [digit_char (n mod 10)])"
  by pat_completeness auto
termination
  by (relation "measure (\<lambda>n. n)") auto

declare str_nat.simps [simp del]

definition str_int :: "int \<Rightarrow> string" where
  "str_int i = (if i < 0 then CHR ''-'' # str_nat (nat (- i)) else str_nat (nat i))"

text \<open>\<^verbatim>\<open>f'{x}'\<close> for the content of a matrix cell.\<close>

definition format_cell :: "int option \<Rightarrow> string" where
  "format_cell x = (case x of None \<Rightarrow> ''None'' | Some v \<Rightarrow> str_int v)"

section \<open>The matrix\<close>

text \<open>
  A two-dimensional numpy array: its shape, and the content of each cell. A cell is read
  and written through the shape only, so the content outside the shape is never seen.
  \<open>cells m (i, j) = None\<close> is a cell holding \<^verbatim>\<open>None\<close>.
\<close>

record ndarray =
  shape0 :: nat
  shape1 :: nat
  cells :: "nat \<times> nat \<Rightarrow> int option"

text \<open>\<^verbatim>\<open>np.full((one_size, two_size), None)\<close>\<close>

definition np_full_None :: "nat \<Rightarrow> nat \<Rightarrow> ndarray" where
  "np_full_None one_size two_size =
     \<lparr>shape0 = one_size, shape1 = two_size, cells = (\<lambda>_. None)\<rparr>"

text \<open>\<^verbatim>\<open>matrix[i, j]\<close>\<close>

definition getitem :: "ndarray \<Rightarrow> int \<Rightarrow> int \<Rightarrow> error + int option" where
  "getitem matrix i j =
     and_then (py_index (shape0 matrix) i) (\<lambda>a.
     and_then (py_index (shape1 matrix) j) (\<lambda>b.
       Inr (cells matrix (a, b))))"

text \<open>\<^verbatim>\<open>matrix[i, j] = v\<close>; the array is changed in place, the model returns the new one.\<close>

definition setitem :: "ndarray \<Rightarrow> int \<Rightarrow> int \<Rightarrow> int \<Rightarrow> error + ndarray" where
  "setitem matrix i j v =
     and_then (py_index (shape0 matrix) i) (\<lambda>a.
     and_then (py_index (shape1 matrix) j) (\<lambda>b.
       Inr (matrix\<lparr>cells := (cells matrix)((a, b) \<mapsto> v)\<rparr>)))"

section \<open>ScoringMatrix and PopulateMatrix\<close>

definition ScoringMatrix :: "int \<Rightarrow> int \<Rightarrow> string \<Rightarrow> string \<Rightarrow> error + int" where
  "ScoringMatrix current_row current_column seq1 seq2 =
     and_then (str_getitem seq1 (current_row - 1)) (\<lambda>SeqLetterOne.
     and_then (str_getitem seq2 (current_column - 1)) (\<lambda>SeqLetterTwo.
       if SeqLetterOne = SeqLetterTwo then Inr 1 else Inr (- 1)))"

definition gap_penalty :: int where
  "gap_penalty = - 2"

text \<open>The body of the two nested loops of PopulateMatrix (lines 59 to 72).\<close>

definition fill_cell :: "string \<Rightarrow> string \<Rightarrow> int \<Rightarrow> int \<Rightarrow> ndarray \<Rightarrow> error + ndarray" where
  "fill_cell seq1 seq2 row column matrix =
     (if row = 0 \<and> column = 0 then setitem matrix row column 0
      else if row = 0 then
        and_then (getitem matrix row (column - 1)) (\<lambda>x.
        and_then (py_add x gap_penalty) (\<lambda>v.
          setitem matrix row column v))
      else if column = 0 then
        and_then (getitem matrix (row - 1) column) (\<lambda>x.
        and_then (py_add x gap_penalty) (\<lambda>v.
          setitem matrix row column v))
      else
        and_then (getitem matrix (row - 1) (column - 1)) (\<lambda>x.
        and_then (ScoringMatrix row column seq1 seq2) (\<lambda>s.
        and_then (py_add x s) (\<lambda>match_mismatch.
        and_then (getitem matrix (row - 1) column) (\<lambda>y.
        and_then (py_add y gap_penalty) (\<lambda>delete.
        and_then (getitem matrix row (column - 1)) (\<lambda>z.
        and_then (py_add z gap_penalty) (\<lambda>insert.
          setitem matrix row column (max match_mismatch (max delete insert))))))))))"

text \<open>The loops of PopulateMatrix (lines 57 to 72): the matrix after them.\<close>

definition populate :: "int \<Rightarrow> int \<Rightarrow> string \<Rightarrow> string \<Rightarrow> ndarray \<Rightarrow> error + ndarray" where
  "populate seq_rows seq_columns seq1 seq2 matrix =
     for_each (py_range seq_rows)
       (\<lambda>row. for_each (py_range seq_columns) (\<lambda>column. fill_cell seq1 seq2 row column))
       matrix"

section \<open>BackTracking\<close>

text \<open>The variables of BackTracking that its loops change.\<close>

record walk =
  row_index :: int
  column_index :: int
  seq_one_final :: string
  seq_two_final :: string

text \<open>
  The body of the first \<^verbatim>\<open>while\<close> loop, in its two halves. First the three
  scores (lines 126 to 128): \<open>(diagonal_score, upper_score, side_score)\<close>, computed in
  the order of the source, so the first exception is the source's.
\<close>

definition walk_scores :: "ndarray \<Rightarrow> string \<Rightarrow> string \<Rightarrow> walk \<Rightarrow> error + int \<times> int \<times> int" where
  "walk_scores matrix seq_one seq_two w =
     and_then (getitem matrix (row_index w - 1) (column_index w - 1)) (\<lambda>x.
     and_then (ScoringMatrix (row_index w) (column_index w) seq_one seq_two) (\<lambda>s.
     and_then (py_add x s) (\<lambda>diagonal_score.
     and_then (getitem matrix (row_index w - 1) (column_index w)) (\<lambda>y.
     and_then (py_add y (- 2)) (\<lambda>upper_score.
     and_then (getitem matrix (row_index w) (column_index w - 1)) (\<lambda>z.
     and_then (py_add z (- 2)) (\<lambda>side_score.
       Inr (diagonal_score, upper_score, side_score))))))))"

text \<open>Then the choice of the direction and the move (lines 131 to 143).\<close>

definition walk_move :: "string \<Rightarrow> string \<Rightarrow> walk \<Rightarrow> int \<times> int \<times> int \<Rightarrow> error + walk" where
  "walk_move seq_one seq_two w scores =
     (case scores of (diagonal_score, upper_score, side_score) \<Rightarrow>
       if diagonal_score > upper_score \<and> diagonal_score > side_score then
         and_then (str_getitem seq_one (row_index w - 1)) (\<lambda>a.
         and_then (str_getitem seq_two (column_index w - 1)) (\<lambda>b.
           Inr \<lparr>row_index = row_index w - 1, column_index = column_index w - 1,
                seq_one_final = a # seq_one_final w, seq_two_final = b # seq_two_final w\<rparr>))
       else if upper_score > side_score then
         and_then (str_getitem seq_one (row_index w - 1)) (\<lambda>a.
           Inr \<lparr>row_index = row_index w - 1, column_index = column_index w,
                seq_one_final = a # seq_one_final w,
                seq_two_final = CHR ''-'' # seq_two_final w\<rparr>)
       else
         and_then (str_getitem seq_two (column_index w - 1)) (\<lambda>b.
           Inr \<lparr>row_index = row_index w, column_index = column_index w - 1,
                seq_one_final = CHR ''-'' # seq_one_final w,
                seq_two_final = b # seq_two_final w\<rparr>))"

definition walk_step :: "ndarray \<Rightarrow> string \<Rightarrow> string \<Rightarrow> walk \<Rightarrow> error + walk" where
  "walk_step matrix seq_one seq_two w =
     and_then (walk_scores matrix seq_one seq_two w) (walk_move seq_one seq_two w)"

text \<open>The first loop, \<^verbatim>\<open>while row_index > 0 and column_index > 0\<close> (line 124).\<close>

function walk_loop :: "ndarray \<Rightarrow> string \<Rightarrow> string \<Rightarrow> walk \<Rightarrow> error + walk" where
  "walk_loop matrix seq_one seq_two w =
     (if row_index w > 0 \<and> column_index w > 0 then
        (case walk_step matrix seq_one seq_two w of
           Inl e \<Rightarrow> Inl e
         | Inr w' \<Rightarrow> walk_loop matrix seq_one seq_two w')
      else Inr w)"
  by pat_completeness auto
termination
  by (relation "measure (\<lambda>(matrix, seq_one, seq_two, w). nat (row_index w + column_index w))")
    (auto simp: walk_step_def walk_move_def and_then_def split: sum.splits if_splits)

declare walk_loop.simps [simp del]

text \<open>
  The second loop, \<^verbatim>\<open>while row_index != 0\<close> (lines 147 to 150). Below zero the index
  keeps falling until the read of \<^verbatim>\<open>seq_one\<close> raises.
\<close>

function drain_rows :: "string \<Rightarrow> walk \<Rightarrow> error + walk" where
  "drain_rows seq_one w =
     (if row_index w \<noteq> 0 then
        (case str_getitem seq_one (row_index w - 1) of
           Inl e \<Rightarrow> Inl e
         | Inr a \<Rightarrow>
             drain_rows seq_one
               (w\<lparr>seq_one_final := a # seq_one_final w,
                  seq_two_final := CHR ''-'' # seq_two_final w,
                  row_index := row_index w - 1\<rparr>))
      else Inr w)"
  by pat_completeness auto
termination
  by (relation "measure (\<lambda>(seq_one, w). nat (row_index w + int (length seq_one) + 1))")
    (auto simp: str_getitem_def py_index_def and_then_def split: if_splits)

declare drain_rows.simps [simp del]

text \<open>The third loop, \<^verbatim>\<open>while column_index != 0\<close> (lines 152 to 155).\<close>

function drain_columns :: "string \<Rightarrow> walk \<Rightarrow> error + walk" where
  "drain_columns seq_two w =
     (if column_index w \<noteq> 0 then
        (case str_getitem seq_two (column_index w - 1) of
           Inl e \<Rightarrow> Inl e
         | Inr b \<Rightarrow>
             drain_columns seq_two
               (w\<lparr>seq_two_final := b # seq_two_final w,
                  seq_one_final := CHR ''-'' # seq_one_final w,
                  column_index := column_index w - 1\<rparr>))
      else Inr w)"
  by pat_completeness auto
termination
  by (relation "measure (\<lambda>(seq_two, w). nat (column_index w + int (length seq_two) + 1))")
    (auto simp: str_getitem_def py_index_def and_then_def split: if_splits)

declare drain_columns.simps [simp del]

text \<open>
  BackTracking up to its last two lines (lines 112 to 155): the variables when the
  three loops are over.
\<close>

definition traceback :: "ndarray \<Rightarrow> string \<Rightarrow> string \<Rightarrow> error + walk" where
  "traceback matrix seq_one seq_two =
     and_then
       (walk_loop matrix seq_one seq_two
          \<lparr>row_index = int (shape0 matrix) - 1, column_index = int (shape1 matrix) - 1,
           seq_one_final = [], seq_two_final = []\<rparr>)
       (\<lambda>w. if column_index w = 0 then drain_rows seq_one w
            else if row_index w = 0 then drain_columns seq_two w
            else Inr w)"

text \<open>
  BackTracking. The line it returns is also printed (line 158); the model keeps the
  returned value only. The score is what \<^verbatim>\<open>matrix[-1, -1]\<close> reads when the loops are
  over. The \<^verbatim>\<open>int(...)\<close> around the three scores is the identity on a Python int.
\<close>

definition BackTracking :: "ndarray \<Rightarrow> string \<Rightarrow> string \<Rightarrow> error + string" where
  "BackTracking matx sequence1 sequence2 =
     and_then (traceback matx sequence1 sequence2) (\<lambda>w.
     and_then (getitem matx (- 1) (- 1)) (\<lambda>score.
       Inr (seq_one_final w @ '' '' @ seq_two_final w @ '' '' @ format_cell score)))"

definition PopulateMatrix ::
    "int \<Rightarrow> int \<Rightarrow> string \<Rightarrow> string \<Rightarrow> ndarray \<Rightarrow> error + string" where
  "PopulateMatrix seq_rows seq_columns sequence1 sequence2 matx =
     and_then (populate seq_rows seq_columns sequence1 sequence2 matx) (\<lambda>matrix.
       BackTracking matrix sequence1 sequence2)"

section \<open>One row of ParserFile\<close>

text \<open>
  What ParserFile does with one row of its file (lines 25 to 30): the sizes, the fresh
  matrix, and the call of PopulateMatrix. \<open>built\<close> is the matrix that call fills and
  \<open>aligned\<close> the variables of BackTracking at its end.
\<close>

definition built :: "string \<Rightarrow> string \<Rightarrow> error + ndarray" where
  "built seq_one seq_two =
     populate (int (length seq_one) + 1) (int (length seq_two) + 1) seq_one seq_two
       (np_full_None (length seq_one + 1) (length seq_two + 1))"

definition aligned :: "string \<Rightarrow> string \<Rightarrow> error + walk" where
  "aligned seq_one seq_two =
     and_then (built seq_one seq_two) (\<lambda>matrix. traceback matrix seq_one seq_two)"

definition align :: "string \<Rightarrow> string \<Rightarrow> error + string" where
  "align seq_one seq_two =
     PopulateMatrix (int (length seq_one) + 1) (int (length seq_two) + 1) seq_one seq_two
       (np_full_None (length seq_one + 1) (length seq_two + 1))"

section \<open>The recurrence of the specification and the invariants of the proofs\<close>

text \<open>
  The cell rule as the specification words it (section 4.1), written as a recursive
  function of its own and compared below with the matrix the source fills: the score of
  a pair of symbols, and the value of cell \<open>(i, j)\<close>, where symbol \<open>i\<close> of a sequence
  (counted from 1) is \<open>seq ! (i - 1)\<close>.
\<close>

definition pairScore :: "char \<Rightarrow> char \<Rightarrow> int" where
  "pairScore a b = (if a = b then 1 else - 1)"

fun spec_cell :: "string \<Rightarrow> string \<Rightarrow> nat \<Rightarrow> nat \<Rightarrow> int" where
  "spec_cell seq1 seq2 0 0 = 0"
| "spec_cell seq1 seq2 0 (Suc j) = spec_cell seq1 seq2 0 j + (- 2)"
| "spec_cell seq1 seq2 (Suc i) 0 = spec_cell seq1 seq2 i 0 + (- 2)"
| "spec_cell seq1 seq2 (Suc i) (Suc j) =
     max (spec_cell seq1 seq2 i j + pairScore (seq1 ! i) (seq2 ! j))
       (max (spec_cell seq1 seq2 i (Suc j) + (- 2)) (spec_cell seq1 seq2 (Suc i) j + (- 2)))"

text \<open>
  The invariant of the two loops of PopulateMatrix: the shape fits the sequences, and
  every cell before \<open>(r, k)\<close> in row-major order holds the value of the recurrence.
\<close>

definition scored_upto :: "string \<Rightarrow> string \<Rightarrow> nat \<Rightarrow> nat \<Rightarrow> ndarray \<Rightarrow> bool" where
  "scored_upto seq1 seq2 r k m \<longleftrightarrow>
     shape0 m = Suc (length seq1) \<and> shape1 m = Suc (length seq2) \<and>
     (\<forall>i j. (i < r \<and> j \<le> length seq2) \<or> (i = r \<and> j < k) \<longrightarrow>
        cells m (i, j) = Some (spec_cell seq1 seq2 i j))"

text \<open>The matrix once both loops are over.\<close>

definition scored :: "string \<Rightarrow> string \<Rightarrow> ndarray \<Rightarrow> bool" where
  "scored seq1 seq2 m \<longleftrightarrow>
     shape0 m = Suc (length seq1) \<and> shape1 m = Suc (length seq2) \<and>
     (\<forall>i j. i \<le> length seq1 \<and> j \<le> length seq2 \<longrightarrow>
        cells m (i, j) = Some (spec_cell seq1 seq2 i j))"

text \<open>A string without its gap markers.\<close>

definition no_gaps :: "string \<Rightarrow> string" where
  "no_gaps s = filter (\<lambda>c. c \<noteq> CHR ''-'') s"

text \<open>
  The invariant of the first loop of BackTracking: the indices stay inside the matrix,
  the two outputs have one length, and each output without its gap markers is the part
  of its sequence already consumed.
\<close>

definition walk_inv :: "string \<Rightarrow> string \<Rightarrow> walk \<Rightarrow> bool" where
  "walk_inv seq1 seq2 w \<longleftrightarrow>
     (\<exists>i j. row_index w = int i \<and> column_index w = int j \<and>
        i \<le> length seq1 \<and> j \<le> length seq2 \<and>
        length (seq_one_final w) = length (seq_two_final w) \<and>
        no_gaps (seq_one_final w) = no_gaps (drop i seq1) \<and>
        no_gaps (seq_two_final w) = no_gaps (drop j seq2))"


section \<open>Reading and writing inside the shape\<close>

lemma and_then_Inr [simp]: "and_then (Inr x) f = f x"
  by (simp add: and_then_def)

lemma and_then_Inl [simp]: "and_then (Inl e) f = Inl e"
  by (simp add: and_then_def)

lemma py_index_nat [simp]: "k < n \<Longrightarrow> py_index n (int k) = Inr k"
  by (simp add: py_index_def)

lemma int_Suc_minus_1: "int (Suc n) - 1 = int n"
  by simp

lemma py_index_0 [simp]: "0 < n \<Longrightarrow> py_index n 0 = Inr 0"
  by (simp add: py_index_def)

lemma getitem_nat: "i < shape0 m \<Longrightarrow> j < shape1 m \<Longrightarrow> getitem m (int i) (int j) = Inr (cells m (i, j))"
  by (simp add: getitem_def)

lemma setitem_nat: "i < shape0 m \<Longrightarrow> j < shape1 m \<Longrightarrow>
    setitem m (int i) (int j) v = Inr (m\<lparr>cells := (cells m)((i, j) \<mapsto> v)\<rparr>)"
  by (simp add: setitem_def)

lemma str_getitem_nat: "k < length s \<Longrightarrow> str_getitem s (int k) = Inr (s ! k)"
  by (simp add: str_getitem_def)

lemma ScoringMatrix_Suc:
  "i < length seq1 \<Longrightarrow> j < length seq2 \<Longrightarrow>
   ScoringMatrix (int (Suc i)) (int (Suc j)) seq1 seq2 = Inr (pairScore (seq1 ! i) (seq2 ! j))"
  by (simp add: ScoringMatrix_def str_getitem_nat pairScore_def)

section \<open>PopulateMatrix fills the matrix with the recurrence\<close>

lemma fill_cell_scored:
  assumes "scored_upto seq1 seq2 r k m" and "r \<le> length seq1" and "k \<le> length seq2"
  shows "\<exists>m'. fill_cell seq1 seq2 (int r) (int k) m = Inr m' \<and> scored_upto seq1 seq2 r (Suc k) m'"
proof -
  have sh: "shape0 m = Suc (length seq1)" "shape1 m = Suc (length seq2)"
    using assms(1) by (simp_all add: scored_upto_def)
  have old: "\<And>i j. (i < r \<and> j \<le> length seq2) \<or> (i = r \<and> j < k) \<Longrightarrow>
      cells m (i, j) = Some (spec_cell seq1 seq2 i j)"
    using assms(1) unfolding scored_upto_def by blast
  have set: "\<And>v. setitem m (int r) (int k) v = Inr (m\<lparr>cells := (cells m)((r, k) \<mapsto> v)\<rparr>)"
    using sh assms(2,3) by (simp add: setitem_nat)
  have step: "scored_upto seq1 seq2 r (Suc k) (m\<lparr>cells := (cells m)((r, k) \<mapsto> spec_cell seq1 seq2 r k)\<rparr>)"
    using sh old by (auto simp: scored_upto_def less_Suc_eq)
  show ?thesis
  proof (cases r)
    case 0
    note r0 = this
    show ?thesis
    proof (cases k)
      case 0
      with r0 set step show ?thesis by (simp add: fill_cell_def)
    next
      case (Suc k')
      have "getitem m (int 0) (int k') = Inr (cells m (0, k'))"
        using sh assms(3) Suc by (intro getitem_nat) simp_all
      moreover have "cells m (0, k') = Some (spec_cell seq1 seq2 0 k')"
        using old [of 0 k'] r0 Suc by simp
      ultimately show ?thesis
        using r0 Suc set [of "spec_cell seq1 seq2 0 k' + (- 2)"] step
        by (simp add: fill_cell_def py_add_def gap_penalty_def)
    qed
  next
    case (Suc r')
    note rS = this
    show ?thesis
    proof (cases k)
      case 0
      have "getitem m (int r') (int 0) = Inr (cells m (r', 0))"
        using sh assms(2) Suc by (intro getitem_nat) simp_all
      moreover have "cells m (r', 0) = Some (spec_cell seq1 seq2 r' 0)"
        using old [of r' 0] rS by simp
      ultimately show ?thesis
        using rS 0 set [of "spec_cell seq1 seq2 r' 0 + (- 2)"] step
        by (simp add: fill_cell_def py_add_def gap_penalty_def)
    next
      case (Suc k')
      have g1: "getitem m (int r') (int k') = Inr (Some (spec_cell seq1 seq2 r' k'))"
        using sh assms(2,3) rS Suc old [of r' k'] by (simp add: getitem_nat del: of_nat_Suc)
      have g2: "getitem m (int r') (int (Suc k')) = Inr (Some (spec_cell seq1 seq2 r' (Suc k')))"
        using sh assms(2,3) rS Suc old [of r' "Suc k'"] by (simp add: getitem_nat del: of_nat_Suc)
      have g3: "getitem m (int (Suc r')) (int k') = Inr (Some (spec_cell seq1 seq2 (Suc r') k'))"
        using sh assms(2,3) rS Suc old [of "Suc r'" k'] by (simp add: getitem_nat del: of_nat_Suc)
      have sc: "ScoringMatrix (int (Suc r')) (int (Suc k')) seq1 seq2 = Inr (pairScore (seq1 ! r') (seq2 ! k'))"
        using assms(2,3) rS Suc by (intro ScoringMatrix_Suc) simp_all
      have "fill_cell seq1 seq2 (int (Suc r')) (int (Suc k')) m =
          setitem m (int (Suc r')) (int (Suc k')) (spec_cell seq1 seq2 (Suc r') (Suc k'))"
        using g1 g2 g3 sc
        by (simp add: fill_cell_def py_add_def gap_penalty_def int_Suc_minus_1 del: of_nat_Suc)
      then show ?thesis
        using rS Suc set [of "spec_cell seq1 seq2 r k"] step by (simp del: of_nat_Suc)
    qed
  qed
qed

lemma for_each_snoc:
  "for_each (xs @ [x]) body s = and_then (for_each xs body s) (body x)"
  by (induction xs arbitrary: s) (simp_all add: and_then_def split: sum.splits)

lemma py_range_Suc: "py_range (int (Suc n)) = py_range (int n) @ [int n]"
  by (simp add: py_range_def del: of_nat_Suc)

lemma py_range_0: "py_range 0 = []"
  by (simp add: py_range_def)

lemma columns_scored:
  assumes "scored_upto seq1 seq2 r 0 m" and "r \<le> length seq1"
  shows "n \<le> Suc (length seq2) \<Longrightarrow>
    \<exists>m'. for_each (py_range (int n)) (fill_cell seq1 seq2 (int r)) m = Inr m' \<and>
      scored_upto seq1 seq2 r n m'"
proof (induction n)
  case 0
  then show ?case using assms(1) by (simp add: py_range_def)
next
  case (Suc n)
  then obtain m1 where m1: "for_each (py_range (int n)) (fill_cell seq1 seq2 (int r)) m = Inr m1"
      "scored_upto seq1 seq2 r n m1"
    by auto
  from fill_cell_scored [OF m1(2) assms(2)] Suc.prems
  obtain m2 where "fill_cell seq1 seq2 (int r) (int n) m1 = Inr m2" "scored_upto seq1 seq2 r (Suc n) m2"
    by auto
  with m1(1) show ?case
    by (simp only: py_range_Suc [of n] for_each_snoc and_then_Inr) blast
qed

lemma scored_upto_next_row:
  "scored_upto seq1 seq2 r (Suc (length seq2)) m \<Longrightarrow> scored_upto seq1 seq2 (Suc r) 0 m"
  by (auto simp: scored_upto_def less_Suc_eq le_less)

lemma rows_scored:
  assumes "shape0 m = Suc (length seq1)" and "shape1 m = Suc (length seq2)"
  shows "n \<le> Suc (length seq1) \<Longrightarrow>
    \<exists>m'. for_each (py_range (int n))
        (\<lambda>row. for_each (py_range (int (Suc (length seq2)))) (fill_cell seq1 seq2 row)) m = Inr m' \<and>
      scored_upto seq1 seq2 n 0 m'"
proof (induction n)
  case 0
  then show ?case using assms by (simp add: py_range_def scored_upto_def)
next
  case (Suc n)
  then obtain m1 where m1: "for_each (py_range (int n))
        (\<lambda>row. for_each (py_range (int (Suc (length seq2)))) (fill_cell seq1 seq2 row)) m = Inr m1"
      "scored_upto seq1 seq2 n 0 m1"
    by auto
  from columns_scored [OF m1(2), of "Suc (length seq2)"] Suc.prems
  obtain m2 where m2: "for_each (py_range (int (Suc (length seq2)))) (fill_cell seq1 seq2 (int n)) m1 = Inr m2"
      "scored_upto seq1 seq2 n (Suc (length seq2)) m2"
    by auto
  have "for_each (py_range (int (Suc n)))
        (\<lambda>row. for_each (py_range (int (Suc (length seq2)))) (fill_cell seq1 seq2 row)) m = Inr m2"
    by (simp only: py_range_Suc [of n] for_each_snoc m1(1) and_then_Inr m2(1))
  with scored_upto_next_row [OF m2(2)] show ?case
    by blast
qed

lemma populate_scored:
  assumes "shape0 m = Suc (length seq1)" and "shape1 m = Suc (length seq2)"
  shows "\<exists>m'. populate (int (length seq1) + 1) (int (length seq2) + 1) seq1 seq2 m = Inr m' \<and>
    scored seq1 seq2 m'"
proof -
  have eq: "int (length seq1) + 1 = int (Suc (length seq1))" "int (length seq2) + 1 = int (Suc (length seq2))"
    by simp_all
  from rows_scored [OF assms, of "Suc (length seq1)"]
  obtain m' where "for_each (py_range (int (Suc (length seq1))))
        (\<lambda>row. for_each (py_range (int (Suc (length seq2)))) (fill_cell seq1 seq2 row)) m = Inr m'"
      "scored_upto seq1 seq2 (Suc (length seq1)) 0 m'"
    by auto
  then show ?thesis
    unfolding populate_def eq by (auto simp: scored_def scored_upto_def less_Suc_eq_le)
qed

lemma built_scored: "\<exists>m. built seq1 seq2 = Inr m \<and> scored seq1 seq2 m"
  unfolding built_def by (rule populate_scored) (simp_all add: np_full_None_def)

section \<open>The loops of BackTracking on a filled matrix\<close>

lemma walk_step_decreases:
  assumes "walk_step matrix seq_one seq_two w = Inr w'"
  shows "row_index w' + column_index w' < row_index w + column_index w"
  using assms
  by (auto simp: walk_step_def walk_move_def and_then_def split: sum.splits if_splits prod.splits)

lemma py_index_last: "py_index (Suc n) (- 1) = Inr n"
  by (simp add: py_index_def)

lemma getitem_last:
  "shape0 m = Suc a \<Longrightarrow> shape1 m = Suc b \<Longrightarrow> getitem m (- 1) (- 1) = Inr (cells m (a, b))"
  by (simp add: getitem_def py_index_last)

lemma walk_scores_scored:
  assumes "scored seq1 seq2 m" and "row_index w = int (Suc i)" and "column_index w = int (Suc j)"
    and "i < length seq1" and "j < length seq2"
  shows "walk_scores m seq1 seq2 w =
    Inr (spec_cell seq1 seq2 i j + pairScore (seq1 ! i) (seq2 ! j),
         spec_cell seq1 seq2 i (Suc j) - 2, spec_cell seq1 seq2 (Suc i) j - 2)"
proof -
  have sh: "shape0 m = Suc (length seq1)" "shape1 m = Suc (length seq2)"
    and c: "\<And>a b. a \<le> length seq1 \<Longrightarrow> b \<le> length seq2 \<Longrightarrow>
      cells m (a, b) = Some (spec_cell seq1 seq2 a b)"
    using assms(1) by (simp_all add: scored_def)
  have g1: "getitem m (int i) (int j) = Inr (Some (spec_cell seq1 seq2 i j))"
    using sh assms(4,5) c [of i j] by (simp add: getitem_nat)
  have g2: "getitem m (int i) (int (Suc j)) = Inr (Some (spec_cell seq1 seq2 i (Suc j)))"
    using sh assms(4,5) c [of i "Suc j"] by (simp add: getitem_nat del: of_nat_Suc)
  have g3: "getitem m (int (Suc i)) (int j) = Inr (Some (spec_cell seq1 seq2 (Suc i) j))"
    using sh assms(4,5) c [of "Suc i" j] by (simp add: getitem_nat del: of_nat_Suc)
  show ?thesis
    using g1 g2 g3 ScoringMatrix_Suc [OF assms(4,5)]
    by (simp add: walk_scores_def assms(2,3) int_Suc_minus_1 py_add_def del: of_nat_Suc)
qed

lemma walk_move_in_range:
  assumes "row_index w = int (Suc i)" and "column_index w = int (Suc j)"
    and "i < length seq1" and "j < length seq2"
  shows "walk_move seq1 seq2 w (d, u, l) =
    Inr (if d > u \<and> d > l then
           \<lparr>row_index = int i, column_index = int j,
            seq_one_final = seq1 ! i # seq_one_final w, seq_two_final = seq2 ! j # seq_two_final w\<rparr>
         else if u > l then
           \<lparr>row_index = int i, column_index = int (Suc j),
            seq_one_final = seq1 ! i # seq_one_final w, seq_two_final = CHR ''-'' # seq_two_final w\<rparr>
         else
           \<lparr>row_index = int (Suc i), column_index = int j,
            seq_one_final = CHR ''-'' # seq_one_final w, seq_two_final = seq2 ! j # seq_two_final w\<rparr>)"
  using assms
  by (simp add: walk_move_def int_Suc_minus_1 str_getitem_nat del: of_nat_Suc)

lemma walk_loop_rule:
  assumes "I w"
    and step: "\<And>v. I v \<Longrightarrow> 0 < row_index v \<Longrightarrow> 0 < column_index v \<Longrightarrow>
      \<exists>v'. walk_step m seq1 seq2 v = Inr v' \<and> I v'"
  shows "\<exists>w'. walk_loop m seq1 seq2 w = Inr w' \<and> I w' \<and> \<not> (0 < row_index w' \<and> 0 < column_index w')"
  using assms(1)
proof (induction "nat (row_index w + column_index w)" arbitrary: w rule: less_induct)
  case less
  show ?case
  proof (cases "0 < row_index w \<and> 0 < column_index w")
    case True
    with step [OF less.prems] obtain v' where v': "walk_step m seq1 seq2 w = Inr v'" "I v'"
      by blast
    have "nat (row_index v' + column_index v') < nat (row_index w + column_index w)"
      using walk_step_decreases [OF v'(1)] True by simp
    from less.hyps [OF this v'(2)] show ?thesis
      using True v'(1) by (subst walk_loop.simps) simp
  next
    case False
    with less.prems show ?thesis
      by (subst walk_loop.simps) auto
  qed
qed

lemma drain_rows_nat:
  "row_index w = int r \<Longrightarrow> r \<le> length seq1 \<Longrightarrow>
   drain_rows seq1 w =
     Inr \<lparr>row_index = 0, column_index = column_index w,
          seq_one_final = take r seq1 @ seq_one_final w,
          seq_two_final = replicate r (CHR ''-'') @ seq_two_final w\<rparr>"
proof (induction r arbitrary: w)
  case 0
  then show ?case by (subst drain_rows.simps) simp
next
  case (Suc r)
  have "str_getitem seq1 (row_index w - 1) = Inr (seq1 ! r)"
    using Suc.prems by (simp add: str_getitem_nat)
  moreover have "row_index w \<noteq> 0"
    using Suc.prems by simp
  ultimately have "drain_rows seq1 w = drain_rows seq1
      (w\<lparr>seq_one_final := seq1 ! r # seq_one_final w,
         seq_two_final := CHR ''-'' # seq_two_final w, row_index := row_index w - 1\<rparr>)"
    by (subst drain_rows.simps) simp
  also have "\<dots> = Inr \<lparr>row_index = 0, column_index = column_index w,
          seq_one_final = take r seq1 @ seq1 ! r # seq_one_final w,
          seq_two_final = replicate r (CHR ''-'') @ CHR ''-'' # seq_two_final w\<rparr>"
    using Suc.prems by (subst Suc.IH) simp_all
  finally show ?case
    using Suc.prems by (simp add: take_Suc_conv_app_nth replicate_app_Cons_same)
qed

lemma drain_columns_nat:
  "column_index w = int c \<Longrightarrow> c \<le> length seq2 \<Longrightarrow>
   drain_columns seq2 w =
     Inr \<lparr>row_index = row_index w, column_index = 0,
          seq_one_final = replicate c (CHR ''-'') @ seq_one_final w,
          seq_two_final = take c seq2 @ seq_two_final w\<rparr>"
proof (induction c arbitrary: w)
  case 0
  then show ?case by (subst drain_columns.simps) simp
next
  case (Suc c)
  have "str_getitem seq2 (column_index w - 1) = Inr (seq2 ! c)"
    using Suc.prems by (simp add: str_getitem_nat)
  moreover have "column_index w \<noteq> 0"
    using Suc.prems by simp
  ultimately have "drain_columns seq2 w = drain_columns seq2
      (w\<lparr>seq_two_final := seq2 ! c # seq_two_final w,
         seq_one_final := CHR ''-'' # seq_one_final w, column_index := column_index w - 1\<rparr>)"
    by (subst drain_columns.simps) simp
  also have "\<dots> = Inr \<lparr>row_index = row_index w, column_index = 0,
          seq_one_final = replicate c (CHR ''-'') @ CHR ''-'' # seq_one_final w,
          seq_two_final = take c seq2 @ seq2 ! c # seq_two_final w\<rparr>"
    using Suc.prems by (subst Suc.IH) simp_all
  finally show ?case
    using Suc.prems by (simp add: take_Suc_conv_app_nth replicate_app_Cons_same)
qed

lemma no_gaps_drop_Suc: "i < length s \<Longrightarrow> no_gaps (drop i s) = no_gaps (s ! i # drop (Suc i) s)"
  by (simp add: Cons_nth_drop_Suc)

lemma walk_step_inv:
  assumes "scored seq1 seq2 m" and "walk_inv seq1 seq2 v"
    and "0 < row_index v" and "0 < column_index v"
  shows "\<exists>v'. walk_step m seq1 seq2 v = Inr v' \<and> walk_inv seq1 seq2 v'"
proof -
  from assms(2) obtain i j where ij: "row_index v = int i" "column_index v = int j"
      "i \<le> length seq1" "j \<le> length seq2"
      "length (seq_one_final v) = length (seq_two_final v)"
      "no_gaps (seq_one_final v) = no_gaps (drop i seq1)"
      "no_gaps (seq_two_final v) = no_gaps (drop j seq2)"
    unfolding walk_inv_def by blast
  from ij(1,2) assms(3,4) obtain i' j' where S: "i = Suc i'" "j = Suc j'"
    by (cases i; cases j) simp_all
  have r: "row_index v = int (Suc i')" "column_index v = int (Suc j')" "i' < length seq1" "j' < length seq2"
    using ij S by simp_all
  have d: "no_gaps (drop i' seq1) = no_gaps (seq1 ! i' # drop i seq1)"
      "no_gaps (drop j' seq2) = no_gaps (seq2 ! j' # drop j seq2)"
    using r(3,4) S by (simp_all add: no_gaps_drop_Suc)
  obtain du where du: "walk_scores m seq1 seq2 v = Inr du"
    using walk_scores_scored [OF assms(1) r] by blast
  obtain d u l where dul: "du = (d, u, l)"
    by (cases du) auto
  have step: "walk_step m seq1 seq2 v = walk_move seq1 seq2 v (d, u, l)"
    by (simp add: walk_step_def du dul)
  show ?thesis
    unfolding step walk_move_in_range [OF r] walk_inv_def
    using ij(5,6,7) r(3,4) d S
    by (auto simp: no_gaps_def simp del: of_nat_Suc)
qed

lemma no_gaps_replicate: "no_gaps (replicate n (CHR ''-'') @ s) = no_gaps s"
  by (simp add: no_gaps_def)

lemma no_gaps_take_drop: "no_gaps (take n s @ t) = no_gaps (take n s) @ no_gaps t"
  by (simp add: no_gaps_def)

lemma no_gaps_whole: "no_gaps t = no_gaps (drop n s) \<Longrightarrow> no_gaps (take n s @ t) = no_gaps s"
proof -
  assume "no_gaps t = no_gaps (drop n s)"
  then have "no_gaps (take n s @ t) = no_gaps (take n s) @ no_gaps (drop n s)"
    by (simp add: no_gaps_def)
  also have "\<dots> = no_gaps (take n s @ drop n s)"
    by (simp only: no_gaps_def filter_append)
  finally show ?thesis by simp
qed

lemma traceback_scored:
  assumes "scored seq1 seq2 m"
  shows "\<exists>w. traceback m seq1 seq2 = Inr w \<and> row_index w = 0 \<and> column_index w = 0 \<and>
    length (seq_one_final w) = length (seq_two_final w) \<and>
    no_gaps (seq_one_final w) = no_gaps seq1 \<and> no_gaps (seq_two_final w) = no_gaps seq2"
proof -
  let ?w0 = "\<lparr>row_index = int (shape0 m) - 1, column_index = int (shape1 m) - 1,
           seq_one_final = [], seq_two_final = []\<rparr>"
  have sh: "shape0 m = Suc (length seq1)" "shape1 m = Suc (length seq2)"
    using assms by (simp_all add: scored_def)
  have "walk_inv seq1 seq2 ?w0"
    unfolding walk_inv_def using sh by (intro exI [of _ "length seq1"] exI [of _ "length seq2"]) simp
  from walk_loop_rule [of "walk_inv seq1 seq2", OF this walk_step_inv [OF assms]]
  obtain w where w: "walk_loop m seq1 seq2 ?w0 = Inr w" "walk_inv seq1 seq2 w"
      "\<not> (0 < row_index w \<and> 0 < column_index w)"
    by blast
  from w(2) obtain i j where ij: "row_index w = int i" "column_index w = int j"
      "i \<le> length seq1" "j \<le> length seq2"
      "length (seq_one_final w) = length (seq_two_final w)"
      "no_gaps (seq_one_final w) = no_gaps (drop i seq1)"
      "no_gaps (seq_two_final w) = no_gaps (drop j seq2)"
    unfolding walk_inv_def by blast
  show ?thesis
  proof (cases "j = 0")
    case True
    then have "traceback m seq1 seq2 = drain_rows seq1 w"
      using w(1) ij(2) by (simp add: traceback_def)
    then show ?thesis
      using ij True by (simp add: drain_rows_nat [OF ij(1,3)] no_gaps_replicate no_gaps_whole)
  next
    case False
    with w(3) ij(1,2) have i0: "i = 0" by simp
    then have "traceback m seq1 seq2 = drain_columns seq2 w"
      using w(1) ij(1,2) False by (simp add: traceback_def)
    then show ?thesis
      using ij i0 by (simp add: drain_columns_nat [OF ij(2,4)] no_gaps_replicate no_gaps_whole)
  qed
qed

lemma scored_final_cell:
  "scored seq1 seq2 m \<Longrightarrow>
   getitem m (- 1) (- 1) = Inr (Some (spec_cell seq1 seq2 (length seq1) (length seq2)))"
  by (simp add: scored_def getitem_last)

section \<open>Properties of the recurrence\<close>

lemma spec_cell_sym: "spec_cell seq2 seq1 j i = spec_cell seq1 seq2 i j"
  by (induction seq1 seq2 i j rule: spec_cell.induct) (simp_all add: pairScore_def max.commute eq_commute)

lemma spec_cell_le:
  "spec_cell seq1 seq2 i j \<le> 3 * int i - 2 * int j \<and>
   spec_cell seq1 seq2 i j \<le> 3 * int j - 2 * int i"
  by (induction seq1 seq2 i j rule: spec_cell.induct) (auto simp: pairScore_def)

lemma spec_cell_row0: "spec_cell seq1 seq2 0 j = - 2 * int j"
  by (induction j) simp_all

lemma spec_cell_col0: "spec_cell seq1 seq2 i 0 = - 2 * int i"
  by (induction i) simp_all

lemma spec_cell_same: "spec_cell s s i i = int i"
proof (induction i)
  case 0
  show ?case by simp
next
  case (Suc i)
  have up: "spec_cell s s i (Suc i) - 2 \<le> int i + 1"
    using spec_cell_le [of s s i "Suc i"] by simp
  have left: "spec_cell s s (Suc i) i - 2 \<le> int i + 1"
    using spec_cell_le [of s s "Suc i" i] by simp
  have "spec_cell s s (Suc i) (Suc i) =
      max (int i + 1) (max (spec_cell s s i (Suc i) - 2) (spec_cell s s (Suc i) i - 2))"
    by (simp add: Suc pairScore_def)
  with up left show ?case by simp
qed

section \<open>The whole run\<close>

lemma BackTracking_scored:
  assumes "scored seq1 seq2 m" and "traceback m seq1 seq2 = Inr w"
  shows "BackTracking m seq1 seq2 =
    Inr (seq_one_final w @ '' '' @ seq_two_final w @ '' '' @
         str_int (spec_cell seq1 seq2 (length seq1) (length seq2)))"
  by (simp add: BackTracking_def assms(2) scored_final_cell [OF assms(1)] format_cell_def)

lemma align_built:
  "built seq1 seq2 = Inr m \<Longrightarrow> align seq1 seq2 = BackTracking m seq1 seq2"
  by (simp add: align_def PopulateMatrix_def built_def)

lemma aligned_built:
  "built seq1 seq2 = Inr m \<Longrightarrow> aligned seq1 seq2 = traceback m seq1 seq2"
  by (simp add: aligned_def)

lemma scored_cell:
  "scored seq1 seq2 m \<Longrightarrow> i \<le> length seq1 \<Longrightarrow> j \<le> length seq2 \<Longrightarrow>
   cells m (i, j) = Some (spec_cell seq1 seq2 i j)"
  by (simp add: scored_def)

lemma walk_step_same:
  assumes "scored s s m"
    and "\<exists>i. row_index v = int i \<and> column_index v = int i \<and> i \<le> length s \<and>
        seq_one_final v = drop i s \<and> seq_two_final v = drop i s"
    and "0 < row_index v" and "0 < column_index v"
  shows "\<exists>v'. walk_step m s s v = Inr v' \<and>
    (\<exists>i. row_index v' = int i \<and> column_index v' = int i \<and> i \<le> length s \<and>
        seq_one_final v' = drop i s \<and> seq_two_final v' = drop i s)"
proof -
  from assms(2) obtain i where i: "row_index v = int i" "column_index v = int i" "i \<le> length s"
      "seq_one_final v = drop i s" "seq_two_final v = drop i s"
    by blast
  from i(1) assms(3) obtain k where k: "i = Suc k"
    by (cases i) simp_all
  have r: "row_index v = int (Suc k)" "column_index v = int (Suc k)" "k < length s" "k < length s"
    using i k by simp_all
  have up: "spec_cell s s k (Suc k) - 2 < int k + 1"
    using spec_cell_le [of s s k "Suc k"] by simp
  have left: "spec_cell s s (Suc k) k - 2 < int k + 1"
    using spec_cell_le [of s s "Suc k" k] by simp
  have "walk_step m s s v =
      walk_move s s v (int k + 1, spec_cell s s k (Suc k) - 2, spec_cell s s (Suc k) k - 2)"
    by (simp add: walk_step_def walk_scores_scored [OF assms(1) r] spec_cell_same pairScore_def)
  also have "\<dots> = Inr \<lparr>row_index = int k, column_index = int k,
      seq_one_final = s ! k # seq_one_final v, seq_two_final = s ! k # seq_two_final v\<rparr>"
    using up left by (simp add: walk_move_in_range [OF r])
  finally show ?thesis
    using i(4,5) k r(3) by (simp add: Cons_nth_drop_Suc)
qed

lemma traceback_same:
  assumes "scored s s m"
  shows "traceback m s s =
    Inr \<lparr>row_index = 0, column_index = 0, seq_one_final = s, seq_two_final = s\<rparr>"
proof -
  let ?w0 = "\<lparr>row_index = int (shape0 m) - 1, column_index = int (shape1 m) - 1,
           seq_one_final = [], seq_two_final = []\<rparr>"
  let ?I = "\<lambda>v. \<exists>i. row_index v = int i \<and> column_index v = int i \<and> i \<le> length s \<and>
        seq_one_final v = drop i s \<and> seq_two_final v = drop i s"
  have sh: "shape0 m = Suc (length s)" "shape1 m = Suc (length s)"
    using assms by (simp_all add: scored_def)
  have "?I ?w0"
    using sh by (intro exI [of _ "length s"]) simp
  from walk_loop_rule [of ?I, OF this walk_step_same [OF assms]]
  obtain w where w: "walk_loop m s s ?w0 = Inr w" "?I w"
      "\<not> (0 < row_index w \<and> 0 < column_index w)"
    by blast
  from w(2,3) have w0: "row_index w = int 0" "column_index w = 0"
      "seq_one_final w = s" "seq_two_final w = s"
    by auto
  have "traceback m s s = drain_rows s w"
    using w(1) w0(2) by (simp add: traceback_def)
  then show ?thesis
    using w0 by (simp add: drain_rows_nat [OF w0(1)])
qed

lemma traceback_empty_second:
  assumes "scored s [] m"
  shows "traceback m s [] =
    Inr \<lparr>row_index = 0, column_index = 0, seq_one_final = s,
         seq_two_final = replicate (length s) (CHR ''-'')\<rparr>"
proof -
  let ?w0 = "\<lparr>row_index = int (length s), column_index = 0,
           seq_one_final = [], seq_two_final = []\<rparr>"
  have sh: "shape0 m = Suc (length s)" "shape1 m = Suc 0"
    using assms by (simp_all add: scored_def)
  have "walk_loop m s [] ?w0 = Inr ?w0"
    by (subst walk_loop.simps) simp
  then have "traceback m s [] = drain_rows s ?w0"
    using sh by (simp add: traceback_def)
  then show ?thesis
    by (simp add: drain_rows_nat [of ?w0 "length s"])
qed


section \<open>The claims\<close>

text \<open>
  Claim C1. One pass of the first loop of BackTracking, entered with both indices
  positive and with the three scores recomputed as \<open>diagonal_score\<close>, \<open>upper_score\<close> and
  \<open>side_score\<close>: the move is the diagonal one exactly when the diagonal score is strictly
  greater than both others; otherwise it is the move up exactly when the upper score is
  strictly greater than the side score; otherwise it is the move left, so a tie of all
  three goes left. The pass never raises once the scores are computed, and the loop goes
  on from the state the move gives.
\<close>

theorem C1_tie_break:
  assumes "0 < row_index w" and "0 < column_index w"
    and "walk_scores matrix seq_one seq_two w = Inr (diagonal_score, upper_score, side_score)"
  shows "\<exists>a b w'. str_getitem seq_one (row_index w - 1) = Inr a \<and>
      str_getitem seq_two (column_index w - 1) = Inr b \<and>
      walk_step matrix seq_one seq_two w = Inr w' \<and>
      walk_loop matrix seq_one seq_two w = walk_loop matrix seq_one seq_two w' \<and>
      w' = (if diagonal_score > upper_score \<and> diagonal_score > side_score then
              \<lparr>row_index = row_index w - 1, column_index = column_index w - 1,
               seq_one_final = a # seq_one_final w, seq_two_final = b # seq_two_final w\<rparr>
            else if upper_score > side_score then
              \<lparr>row_index = row_index w - 1, column_index = column_index w,
               seq_one_final = a # seq_one_final w, seq_two_final = CHR ''-'' # seq_two_final w\<rparr>
            else
              \<lparr>row_index = row_index w, column_index = column_index w - 1,
               seq_one_final = CHR ''-'' # seq_one_final w, seq_two_final = b # seq_two_final w\<rparr>) \<and>
      ((row_index w' = row_index w - 1 \<and> column_index w' = column_index w - 1) =
         (diagonal_score > upper_score \<and> diagonal_score > side_score)) \<and>
      ((row_index w' = row_index w - 1 \<and> column_index w' = column_index w) =
         (\<not> (diagonal_score > upper_score \<and> diagonal_score > side_score) \<and>
          upper_score > side_score)) \<and>
      ((row_index w' = row_index w \<and> column_index w' = column_index w - 1) =
         (\<not> (diagonal_score > upper_score \<and> diagonal_score > side_score) \<and>
          \<not> upper_score > side_score))"
proof -
  from assms(3) obtain s where s: "ScoringMatrix (row_index w) (column_index w) seq_one seq_two = Inr s"
    by (auto simp: walk_scores_def and_then_def split: sum.splits)
  then obtain a b where ab: "str_getitem seq_one (row_index w - 1) = Inr a"
      "str_getitem seq_two (column_index w - 1) = Inr b"
    by (auto simp: ScoringMatrix_def and_then_def split: sum.splits)
  let ?w' = "if diagonal_score > upper_score \<and> diagonal_score > side_score then
              \<lparr>row_index = row_index w - 1, column_index = column_index w - 1,
               seq_one_final = a # seq_one_final w, seq_two_final = b # seq_two_final w\<rparr>
            else if upper_score > side_score then
              \<lparr>row_index = row_index w - 1, column_index = column_index w,
               seq_one_final = a # seq_one_final w, seq_two_final = CHR ''-'' # seq_two_final w\<rparr>
            else
              \<lparr>row_index = row_index w, column_index = column_index w - 1,
               seq_one_final = CHR ''-'' # seq_one_final w, seq_two_final = b # seq_two_final w\<rparr>"
  have step: "walk_step matrix seq_one seq_two w = Inr ?w'"
    by (simp add: walk_step_def assms(3) walk_move_def ab)
  have loop: "walk_loop matrix seq_one seq_two w = walk_loop matrix seq_one seq_two ?w'"
    using assms(1,2) by (subst walk_loop.simps) (simp only: step, simp)
  show ?thesis
    using ab step loop by (intro exI [of _ a] exI [of _ b] exI [of _ ?w']) simp
qed

theorem C1_tie_break_witness:
  "walk_step \<lparr>shape0 = 2, shape1 = 2, cells = [(0, 0) \<mapsto> - 1, (0, 1) \<mapsto> 0, (1, 0) \<mapsto> 0]\<rparr>
      ''A'' ''G'' \<lparr>row_index = 1, column_index = 1, seq_one_final = [], seq_two_final = []\<rparr> =
    Inr \<lparr>row_index = 1, column_index = 0, seq_one_final = ''-'', seq_two_final = ''G''\<rparr>"
proof -
  let ?m = "\<lparr>shape0 = 2, shape1 = 2, cells = [(0, 0) \<mapsto> - 1, (0, 1) \<mapsto> 0, (1, 0) \<mapsto> 0]\<rparr>"
  let ?w = "\<lparr>row_index = 1, column_index = 1, seq_one_final = [], seq_two_final = []\<rparr>"
  have "walk_scores ?m ''A'' ''G'' ?w = Inr (- 2, - 2, - 2)"
    by (simp add: walk_scores_def getitem_def py_index_def ScoringMatrix_def str_getitem_def
        py_add_def and_then_def)
  from C1_tie_break [OF _ _ this] show ?thesis
    by (auto simp: str_getitem_def py_index_def and_then_def)
qed

text \<open>
  Claim C2. For every pair of sequences PopulateMatrix fills its matrix without raising,
  and in the filled matrix cell \<open>(0, 0)\<close> is 0, a cell of column 0 is the cell above plus
  the gap penalty, a cell of row 0 is the cell to its left plus the gap penalty, and
  every other cell \<open>(i, j)\<close> is the maximum of the diagonal cell plus the score of symbol
  \<open>i\<close> of the first sequence against symbol \<open>j\<close> of the second (1 when they are equal,
  \<open>- 1\<close> otherwise), the cell above plus the gap penalty and the cell to the left plus
  the gap penalty; the gap penalty is \<open>- 2\<close>.
\<close>

theorem C2_matrix_recurrence:
  "\<exists>M. built seq1 seq2 = Inr M \<and> gap_penalty = - 2 \<and>
     cells M (0, 0) = Some 0 \<and>
     (\<forall>i. 0 < i \<and> i \<le> length seq1 \<longrightarrow>
        (\<exists>up. cells M (i - 1, 0) = Some up \<and> cells M (i, 0) = Some (up + gap_penalty))) \<and>
     (\<forall>j. 0 < j \<and> j \<le> length seq2 \<longrightarrow>
        (\<exists>left. cells M (0, j - 1) = Some left \<and> cells M (0, j) = Some (left + gap_penalty))) \<and>
     (\<forall>i j. 0 < i \<and> i \<le> length seq1 \<and> 0 < j \<and> j \<le> length seq2 \<longrightarrow>
        (\<exists>diag up left.
           cells M (i - 1, j - 1) = Some diag \<and> cells M (i - 1, j) = Some up \<and>
           cells M (i, j - 1) = Some left \<and>
           cells M (i, j) =
             Some (max (diag + (if seq1 ! (i - 1) = seq2 ! (j - 1) then 1 else - 1))
                    (max (up + gap_penalty) (left + gap_penalty)))))"
proof -
  obtain M where M: "built seq1 seq2 = Inr M" "scored seq1 seq2 M"
    using built_scored by blast
  note c = scored_cell [OF M(2)]
  have col: "\<exists>up. cells M (i - 1, 0) = Some up \<and> cells M (i, 0) = Some (up + gap_penalty)"
    if "0 < i \<and> i \<le> length seq1" for i
  proof -
    from that obtain k where "i = Suc k" by (cases i) auto
    with that show ?thesis by (simp add: c gap_penalty_def)
  qed
  have row: "\<exists>left. cells M (0, j - 1) = Some left \<and> cells M (0, j) = Some (left + gap_penalty)"
    if "0 < j \<and> j \<le> length seq2" for j
  proof -
    from that obtain k where "j = Suc k" by (cases j) auto
    with that show ?thesis by (simp add: c gap_penalty_def)
  qed
  have inner: "\<exists>diag up left.
           cells M (i - 1, j - 1) = Some diag \<and> cells M (i - 1, j) = Some up \<and>
           cells M (i, j - 1) = Some left \<and>
           cells M (i, j) =
             Some (max (diag + (if seq1 ! (i - 1) = seq2 ! (j - 1) then 1 else - 1))
                    (max (up + gap_penalty) (left + gap_penalty)))"
    if "0 < i \<and> i \<le> length seq1 \<and> 0 < j \<and> j \<le> length seq2" for i j
  proof -
    from that obtain k l where "i = Suc k" "j = Suc l" by (cases i; cases j) auto
    with that show ?thesis by (simp add: c gap_penalty_def pairScore_def)
  qed
  from M(1) col row inner show ?thesis
    by (intro exI [of _ M]) (simp add: c gap_penalty_def)
qed

theorem C2_matrix_recurrence_witness:
  "\<exists>M. built ''AC'' ''AG'' = Inr M \<and> cells M (0, 0) = Some 0 \<and>
     cells M (1, 0) = Some (- 2) \<and> cells M (0, 1) = Some (- 2) \<and> cells M (1, 1) = Some 1"
proof -
  from C2_matrix_recurrence [of "''AC''" "''AG''"] obtain M where M: "built ''AC'' ''AG'' = Inr M"
    "gap_penalty = - 2" "cells M (0, 0) = Some 0"
    "\<forall>i. 0 < i \<and> i \<le> length ''AC'' \<longrightarrow>
        (\<exists>up. cells M (i - 1, 0) = Some up \<and> cells M (i, 0) = Some (up + gap_penalty))"
    "\<forall>j. 0 < j \<and> j \<le> length ''AG'' \<longrightarrow>
        (\<exists>left. cells M (0, j - 1) = Some left \<and> cells M (0, j) = Some (left + gap_penalty))"
    "\<forall>i j. 0 < i \<and> i \<le> length ''AC'' \<and> 0 < j \<and> j \<le> length ''AG'' \<longrightarrow>
        (\<exists>diag up left.
           cells M (i - 1, j - 1) = Some diag \<and> cells M (i - 1, j) = Some up \<and>
           cells M (i, j - 1) = Some left \<and>
           cells M (i, j) =
             Some (max (diag + (if ''AC'' ! (i - 1) = ''AG'' ! (j - 1) then 1 else - 1))
                    (max (up + gap_penalty) (left + gap_penalty))))"
    by blast
  from M(4) [rule_format, of 1] M(3) M(2) have c10: "cells M (1, 0) = Some (- 2)"
    by simp
  from M(5) [rule_format, of 1] M(3) M(2) have c01: "cells M (0, 1) = Some (- 2)"
    by simp
  from M(6) [rule_format, of 1 1] M(3) M(2) c10 c01 have "cells M (1, 1) = Some 1"
    by simp
  with M(1,3) c10 c01 show ?thesis by blast
qed

text \<open>
  Claim C3. A non-empty sequence aligned against itself: both outputs are the sequence,
  with no gap inserted, the score read from the matrix is its length, and the line
  returned is the sequence twice and that length.
\<close>

theorem C3_self_alignment:
  assumes "A \<noteq> []"
  shows "\<exists>M w. built A A = Inr M \<and> aligned A A = Inr w \<and>
      seq_one_final w = A \<and> seq_two_final w = A \<and>
      getitem M (- 1) (- 1) = Inr (Some (int (length A))) \<and>
      align A A = Inr (A @ '' '' @ A @ '' '' @ str_int (int (length A)))"
proof -
  obtain M where M: "built A A = Inr M" "scored A A M"
    using built_scored by blast
  let ?w = "\<lparr>row_index = 0, column_index = 0, seq_one_final = A, seq_two_final = A\<rparr>"
  have t: "traceback M A A = Inr ?w"
    by (rule traceback_same [OF M(2)])
  have "aligned A A = Inr ?w"
    by (simp add: aligned_built [OF M(1)] t)
  moreover have "getitem M (- 1) (- 1) = Inr (Some (int (length A)))"
    by (simp add: scored_final_cell [OF M(2)] spec_cell_same)
  moreover have "align A A = Inr (A @ '' '' @ A @ '' '' @ str_int (int (length A)))"
    by (simp add: align_built [OF M(1)] BackTracking_scored [OF M(2) t] spec_cell_same)
  ultimately show ?thesis
    using M(1) by (intro exI [of _ M] exI [of _ ?w]) simp
qed

theorem C3_self_alignment_witness:
  "''AC'' \<noteq> [] \<and> align ''AC'' ''AC'' = Inr ''AC AC 2''"
proof -
  have ne: "''AC'' \<noteq> []" by simp
  have "str_int 2 = ''2''"
    by (simp add: str_int_def str_nat.simps digit_char_def)
  with C3_self_alignment [OF ne] show ?thesis by auto
qed

text \<open>
  Claim C4. The final cell of the matrix filled for \<open>(A, B)\<close> and the final cell of the
  matrix filled for \<open>(B, A)\<close> hold the same score, both as cell \<open>(len, len)\<close> and as the
  source reads it, \<^verbatim>\<open>matrix[-1, -1]\<close>.
\<close>

theorem C4_score_symmetry:
  "\<exists>M N score. built A B = Inr M \<and> built B A = Inr N \<and>
     cells M (length A, length B) = Some score \<and> cells N (length B, length A) = Some score \<and>
     getitem M (- 1) (- 1) = Inr (Some score) \<and> getitem N (- 1) (- 1) = Inr (Some score)"
proof -
  obtain M where M: "built A B = Inr M" "scored A B M"
    using built_scored by blast
  obtain N where N: "built B A = Inr N" "scored B A N"
    using built_scored by blast
  show ?thesis
    using M(1) N(1) scored_cell [OF M(2), of "length A" "length B"]
      scored_cell [OF N(2), of "length B" "length A"]
      scored_final_cell [OF M(2)] scored_final_cell [OF N(2)]
    by (simp add: spec_cell_sym [of A B])
qed

text \<open>
  Claim C5. In the matrix PopulateMatrix fills, cell \<open>(0, 0)\<close> is 0, cell \<open>(i, 0)\<close> is
  \<open>- 2 * i\<close> for every row \<open>i\<close> and cell \<open>(0, j)\<close> is \<open>- 2 * j\<close> for every column \<open>j\<close>.
\<close>

theorem C5_borders:
  "\<exists>M. built seq1 seq2 = Inr M \<and> cells M (0, 0) = Some 0 \<and>
     (\<forall>i. i \<le> length seq1 \<longrightarrow> cells M (i, 0) = Some (- 2 * int i)) \<and>
     (\<forall>j. j \<le> length seq2 \<longrightarrow> cells M (0, j) = Some (- 2 * int j))"
proof -
  obtain M where M: "built seq1 seq2 = Inr M" "scored seq1 seq2 M"
    using built_scored by blast
  show ?thesis
    using M(1) by (intro exI [of _ M]) (simp add: scored_cell [OF M(2)] spec_cell_row0 spec_cell_col0)
qed

theorem C5_borders_witness:
  "\<exists>M. built ''AC'' ''G'' = Inr M \<and> cells M (0, 0) = Some 0 \<and>
     cells M (2, 0) = Some (- 4) \<and> cells M (0, 1) = Some (- 2)"
proof -
  from C5_borders [of "''AC''" "''G''"] obtain M where M: "built ''AC'' ''G'' = Inr M"
    "cells M (0, 0) = Some 0"
    "\<forall>i. i \<le> length ''AC'' \<longrightarrow> cells M (i, 0) = Some (- 2 * int i)"
    "\<forall>j. j \<le> length ''G'' \<longrightarrow> cells M (0, j) = Some (- 2 * int j)"
    by blast
  from M(3) [rule_format, of 2] have "cells M (2, 0) = Some (- 4)" by simp
  moreover from M(4) [rule_format, of 1] have "cells M (0, 1) = Some (- 2)" by simp
  ultimately show ?thesis using M(1,2) by blast
qed

text \<open>
  Claim C6. A sequence aligned against the empty sequence: the first output is the
  sequence, the second is as many gap markers as the sequence is long, and the score is
  \<open>- 2\<close> times that length.
\<close>

theorem C6_empty_second:
  "\<exists>M w. built A [] = Inr M \<and> aligned A [] = Inr w \<and>
      seq_one_final w = A \<and> seq_two_final w = replicate (length A) (CHR ''-'') \<and>
      getitem M (- 1) (- 1) = Inr (Some (- 2 * int (length A))) \<and>
      align A [] =
        Inr (A @ '' '' @ replicate (length A) (CHR ''-'') @ '' '' @ str_int (- 2 * int (length A)))"
proof -
  obtain M where M: "built A [] = Inr M" "scored A [] M"
    using built_scored by blast
  let ?w = "\<lparr>row_index = 0, column_index = 0, seq_one_final = A,
         seq_two_final = replicate (length A) (CHR ''-'')\<rparr>"
  have t: "traceback M A [] = Inr ?w"
    by (rule traceback_empty_second [OF M(2)])
  have "aligned A [] = Inr ?w"
    by (simp add: aligned_built [OF M(1)] t)
  moreover have "getitem M (- 1) (- 1) = Inr (Some (- 2 * int (length A)))"
    using scored_final_cell [OF M(2)] by (simp add: spec_cell_col0)
  moreover have "align A [] =
      Inr (A @ '' '' @ replicate (length A) (CHR ''-'') @ '' '' @ str_int (- 2 * int (length A)))"
    using BackTracking_scored [OF M(2) t] by (simp add: align_built [OF M(1)] spec_cell_col0)
  ultimately show ?thesis
    using M(1) by (intro exI [of _ M] exI [of _ ?w]) simp
qed

text \<open>
  Claim C7. For every pair of sequences BackTracking ends, and its two outputs have
  the same length.
\<close>

theorem C7_equal_lengths:
  "\<exists>w. aligned seq1 seq2 = Inr w \<and> length (seq_one_final w) = length (seq_two_final w)"
proof -
  obtain M where M: "built seq1 seq2 = Inr M" "scored seq1 seq2 M"
    using built_scored by blast
  from traceback_scored [OF M(2)] show ?thesis
    by (auto simp: aligned_built [OF M(1)])
qed

text \<open>
  Claim C8. Given two sequences and a matrix whose shape is their lengths plus one
  (whatever its cells hold), PopulateMatrix, and BackTracking which it calls, raise
  nothing and return a line. For two empty sequences the matrix is 1 by 1, the score is
  0, both outputs are empty and the line is two spaces and \<open>0\<close>.
\<close>

theorem C8_no_error:
  assumes "shape0 matx = length seq1 + 1" and "shape1 matx = length seq2 + 1"
  shows "(\<exists>line. PopulateMatrix (int (length seq1) + 1) (int (length seq2) + 1) seq1 seq2 matx
            = Inr line) \<and>
    (\<exists>M w. built [] [] = Inr M \<and> shape0 M = 1 \<and> shape1 M = 1 \<and>
       getitem M (- 1) (- 1) = Inr (Some 0) \<and>
       aligned [] [] = Inr w \<and> seq_one_final w = [] \<and> seq_two_final w = [] \<and>
       align [] [] = Inr ''  0'')"
proof
  from assms obtain M where M:
      "populate (int (length seq1) + 1) (int (length seq2) + 1) seq1 seq2 matx = Inr M"
      "scored seq1 seq2 M"
    using populate_scored [of matx seq1 seq2] by auto
  from traceback_scored [OF M(2)] obtain w where w: "traceback M seq1 seq2 = Inr w"
    by blast
  show "\<exists>line. PopulateMatrix (int (length seq1) + 1) (int (length seq2) + 1) seq1 seq2 matx
      = Inr line"
    by (simp add: PopulateMatrix_def M(1) BackTracking_scored [OF M(2) w])
next
  obtain M where M: "built [] [] = Inr M" "scored [] [] M"
    using built_scored by blast
  let ?w = "\<lparr>row_index = 0, column_index = 0, seq_one_final = [], seq_two_final = []\<rparr>"
  have t: "traceback M [] [] = Inr ?w"
    using traceback_same [OF M(2)] .
  have z: "str_int 0 = ''0''"
    by (simp add: str_int_def str_nat.simps digit_char_def)
  have "shape0 M = 1" "shape1 M = 1"
    using M(2) by (simp_all add: scored_def)
  moreover have "getitem M (- 1) (- 1) = Inr (Some 0)"
    using scored_final_cell [OF M(2)] by simp
  moreover have "aligned [] [] = Inr ?w"
    by (simp add: aligned_built [OF M(1)] t)
  moreover have "align [] [] = Inr ''  0''"
    using BackTracking_scored [OF M(2) t] by (simp add: align_built [OF M(1)] z)
  ultimately show "\<exists>M w. built [] [] = Inr M \<and> shape0 M = 1 \<and> shape1 M = 1 \<and>
       getitem M (- 1) (- 1) = Inr (Some 0) \<and>
       aligned [] [] = Inr w \<and> seq_one_final w = [] \<and> seq_two_final w = [] \<and>
       align [] [] = Inr ''  0''"
    using M(1) by (intro exI [of _ M] exI [of _ ?w]) simp
qed

theorem C8_no_error_witness:
  "shape0 (np_full_None 2 3) = length ''A'' + 1 \<and> shape1 (np_full_None 2 3) = length ''GT'' + 1 \<and>
   (\<exists>line. PopulateMatrix 2 3 ''A'' ''GT'' (np_full_None 2 3) = Inr line)"
proof -
  have s: "shape0 (np_full_None 2 3) = length ''A'' + 1" "shape1 (np_full_None 2 3) = length ''GT'' + 1"
    by (simp_all add: np_full_None_def)
  from C8_no_error [OF s] s show ?thesis by simp
qed

text \<open>
  Claim C9. The line BackTracking returns is its first output, one space, its second
  output, one space, and the decimal rendering of the score, and the score is the
  content of cell \<open>(len1, len2)\<close> of the filled matrix, read and not computed again.
\<close>

theorem C9_rendering:
  "\<exists>M w score. built seq1 seq2 = Inr M \<and> traceback M seq1 seq2 = Inr w \<and>
     cells M (length seq1, length seq2) = Some score \<and>
     BackTracking M seq1 seq2 =
       Inr (seq_one_final w @ '' '' @ seq_two_final w @ '' '' @ str_int score) \<and>
     align seq1 seq2 = Inr (seq_one_final w @ '' '' @ seq_two_final w @ '' '' @ str_int score)"
proof -
  obtain M where M: "built seq1 seq2 = Inr M" "scored seq1 seq2 M"
    using built_scored by blast
  from traceback_scored [OF M(2)] obtain w where w: "traceback M seq1 seq2 = Inr w"
    by blast
  show ?thesis
    using M(1) w BackTracking_scored [OF M(2) w]
    by (intro exI [of _ M] exI [of _ w] exI [of _ "spec_cell seq1 seq2 (length seq1) (length seq2)"])
      (simp add: align_built [OF M(1)] scored_cell [OF M(2)])
qed

text \<open>
  Claim C10. When neither sequence contains the gap marker, removing the gap markers
  from the first output gives back the first sequence and removing them from the second
  output gives back the second.
\<close>

theorem C10_symbols_preserved:
  assumes "CHR ''-'' \<notin> set seq1" and "CHR ''-'' \<notin> set seq2"
  shows "\<exists>w. aligned seq1 seq2 = Inr w \<and>
      filter (\<lambda>c. c \<noteq> CHR ''-'') (seq_one_final w) = seq1 \<and>
      filter (\<lambda>c. c \<noteq> CHR ''-'') (seq_two_final w) = seq2"
proof -
  obtain M where M: "built seq1 seq2 = Inr M" "scored seq1 seq2 M"
    using built_scored by blast
  have "no_gaps seq1 = seq1" "no_gaps seq2 = seq2"
    using assms by (auto simp: no_gaps_def intro: filter_True)
  with traceback_scored [OF M(2)] show ?thesis
    by (auto simp: aligned_built [OF M(1)] no_gaps_def)
qed

theorem C10_symbols_preserved_witness:
  "CHR ''-'' \<notin> set ''AAB'' \<and> CHR ''-'' \<notin> set ''AB'' \<and>
   (\<exists>w. aligned ''AAB'' ''AB'' = Inr w \<and>
      filter (\<lambda>c. c \<noteq> CHR ''-'') (seq_one_final w) = ''AAB'' \<and>
      filter (\<lambda>c. c \<noteq> CHR ''-'') (seq_two_final w) = ''AB'')"
proof -
  have g: "CHR ''-'' \<notin> set ''AAB''" "CHR ''-'' \<notin> set ''AB''"
    by simp_all
  from C10_symbols_preserved [OF g] g show ?thesis by simp
qed

section \<open>Runs on concrete sequences\<close>

lemma example_gap: "align ''AAB'' ''AB'' = Inr ''AAB A-B 0''"
  by code_simp

lemma example_textbook: "align ''GATTACA'' ''GCATGCU'' = Inr ''GATTACA GCATGCU -1''"
  by code_simp

end
